theory Spec2Isabelle
  imports Main "HOL-Library.Sublist"
begin

section \<open>Python strings and the \<open>re\<close> module\<close>

text \<open>
  A Python \<open>str\<close> is a sequence of code points. A code point is modelled by a
  \<^typ>\<open>char\<close>, which covers the code points 0..255 (ASCII and Latin-1); a string
  is a \<^typ>\<open>string\<close>. On these code points the classes of \<open>re\<close> for a \<open>str\<close>
  pattern are: \<open>\d\<close> is \<open>0\<close>..\<open>9\<close>, and \<open>\s\<close> is the code points 9..13, 28..32,
  0x85 and 0xA0.
\<close>

definition code_point :: "char \<Rightarrow> nat" where
  "code_point c = of_char c"

definition re_digit :: "char \<Rightarrow> bool" where
  "re_digit c = (48 \<le> code_point c \<and> code_point c \<le> 57)"

definition re_space :: "char \<Rightarrow> bool" where
  "re_space c =
     ((9 \<le> code_point c \<and> code_point c \<le> 13) \<or> (28 \<le> code_point c \<and> code_point c \<le> 32)
      \<or> code_point c = 133 \<or> code_point c = 160)"

definition re_lower_az :: "char \<Rightarrow> bool" where
  "re_lower_az c = (97 \<le> code_point c \<and> code_point c \<le> 122)"

definition re_upper_az :: "char \<Rightarrow> bool" where
  "re_upper_az c = (65 \<le> code_point c \<and> code_point c \<le> 90)"

text \<open>
  A pattern is a backtracking matcher: from a cursor (the position and the rest of the
  subject) it returns the cursors after every way of matching, in the order in which
  the engine tries them. \<open>re.match\<close> succeeds when there is one.
\<close>

type_synonym cursor = "nat \<times> string"
type_synonym pattern = "cursor \<Rightarrow> cursor list"

definition re_class :: "(char \<Rightarrow> bool) \<Rightarrow> pattern" where
  "re_class P cur =
     (case snd cur of [] \<Rightarrow> [] | c # cs \<Rightarrow> if P c then [(Suc (fst cur), cs)] else [])"

definition re_bol :: pattern where
  \<comment> \<open>\<open>^\<close> without MULTILINE: only at the start of the subject\<close>
  "re_bol cur = (if fst cur = 0 then [cur] else [])"

definition re_eol :: pattern where
  \<comment> \<open>\<open>$\<close> without MULTILINE: at the end of the subject, and just before a newline that
      is the last character of the subject\<close>
  "re_eol cur = (if snd cur = [] \<or> snd cur = [CHR 0x0A] then [cur] else [])"

definition re_seq :: "pattern \<Rightarrow> pattern \<Rightarrow> pattern" where
  "re_seq p q cur = concat (map q (p cur))"

fun re_times :: "nat \<Rightarrow> pattern \<Rightarrow> pattern" where
  "re_times 0 p cur = [cur]"
| "re_times (Suc n) p cur = concat (map (re_times n p) (p cur))"

definition re_opt :: "pattern \<Rightarrow> pattern" where
  \<comment> \<open>greedy \<open>?\<close>: first with the group, then without it\<close>
  "re_opt p cur = p cur @ [cur]"

definition re_match :: "pattern \<Rightarrow> string \<Rightarrow> bool" where
  "re_match p s = (p (0, s) \<noteq> [])"

definition re_sub_class :: "(char \<Rightarrow> bool) \<Rightarrow> string \<Rightarrow> string" where
  \<comment> \<open>\<open>re.sub(cls, '', s)\<close> for a pattern that is one character class: every character
      of the class is replaced by the empty string\<close>
  "re_sub_class P s = filter (\<lambda>c. \<not> P c) s"

text \<open>The pattern \<^verbatim>\<open>^\d{10}(?:\d{3})?$\<close> of \<open>CreateBook.mutate\<close>.\<close>

definition isbn_pattern :: pattern where
  "isbn_pattern =
     re_seq re_bol
       (re_seq (re_times 10 (re_class re_digit))
          (re_seq (re_opt (re_times 3 (re_class re_digit))) re_eol))"

text \<open>The class \<^verbatim>\<open>[^a-zA-Z0-9\s]\<close> of \<open>Query.resolve_search_books\<close>.\<close>

definition not_alnum_space :: "char \<Rightarrow> bool" where
  "not_alnum_space c = (\<not> (re_lower_az c \<or> re_upper_az c \<or> re_digit c \<or> re_space c))"

definition sanitize :: "string \<Rightarrow> string" where
  "sanitize query = re_sub_class not_alnum_space query"


section \<open>\<open>datetime.date\<close>\<close>

text \<open>
  \<open>datetime.date.fromisoformat\<close> as CPython 3.11 and 3.12 implement it
  (\<open>date_fromisoformat\<close> and its helpers in \<open>_datetimemodule.c\<close>): since 3.11 it
  reads the ISO 8601 formats YYYY-MM-DD, YYYYMMDD and the week dates, where the
  versions 3.7 to 3.10 read YYYY-MM-DD only. It works on the UTF-8 bytes of the string;
  a byte is a \<^typ>\<open>char\<close> again. The C string ends with a NUL byte, which is what
  reading at the end of the list gives. The parser stops after the day and does not
  look at what follows it within the 7, 8 or 10 bytes.
\<close>

record date =
  year :: int
  month :: int
  day :: int

definition utf8 :: "string \<Rightarrow> string" where
  "utf8 s =
     concat (map (\<lambda>c. if code_point c < 128 then [c]
                        else [char_of (192 + code_point c div 64),
                              char_of (128 + code_point c mod 64)]) s)"

definition peek :: "string \<Rightarrow> char" where
  "peek p = (case p of [] \<Rightarrow> CHR 0x00 | c # _ \<Rightarrow> c)"

fun parse_digits :: "string \<Rightarrow> nat \<Rightarrow> int \<Rightarrow> (int \<times> string) option" where
  "parse_digits p 0 var = Some (var, p)"
| "parse_digits [] (Suc n) var = None"
| "parse_digits (c # p) (Suc n) var =
     (if re_digit c then parse_digits p n (var * 10 + (int (code_point c) - 48)) else None)"

definition is_leap :: "int \<Rightarrow> bool" where
  "is_leap y = (y mod 4 = 0 \<and> (y mod 100 \<noteq> 0 \<or> y mod 400 = 0))"

definition days_in_month_table :: "int list" where
  "days_in_month_table = [0, 31, 28, 31, 30, 31, 30, 31, 31, 30, 31, 30, 31]"

definition days_before_month_table :: "int list" where
  "days_before_month_table = [0, 0, 31, 59, 90, 120, 151, 181, 212, 243, 273, 304, 334]"

text \<open>Both are called with \<open>1 \<le> month \<le> 12\<close> only.\<close>

definition days_in_month :: "int \<Rightarrow> int \<Rightarrow> int" where
  "days_in_month y m = (if m = 2 \<and> is_leap y then 29 else days_in_month_table ! nat m)"

definition days_before_month :: "int \<Rightarrow> int \<Rightarrow> int" where
  "days_before_month y m =
     days_before_month_table ! nat m + (if m > 2 \<and> is_leap y then 1 else 0)"

definition days_before_year :: "int \<Rightarrow> int" where
  "days_before_year y = (y - 1) * 365 + (y - 1) div 4 - (y - 1) div 100 + (y - 1) div 400"

definition ymd_to_ord :: "int \<Rightarrow> int \<Rightarrow> int \<Rightarrow> int" where
  "ymd_to_ord y m d = days_before_year y + days_before_month y m + d"

definition weekday :: "int \<Rightarrow> int \<Rightarrow> int \<Rightarrow> int" where
  "weekday y m d = (ymd_to_ord y m d + 6) mod 7"

definition iso_week1_monday :: "int \<Rightarrow> int" where
  "iso_week1_monday y =
     (let first_day = ymd_to_ord y 1 1;
          first_weekday = (first_day + 6) mod 7;
          week1_monday = first_day - first_weekday
      in if first_weekday > 3 then week1_monday + 7 else week1_monday)"

definition ord_to_ymd :: "int \<Rightarrow> int \<times> int \<times> int" where
  "ord_to_ymd ordinal =
     (let ordinal = ordinal - 1;
          n400 = ordinal div 146097; n = ordinal mod 146097;
          n100 = n div 36524; n = n mod 36524;
          n4 = n div 1461; n = n mod 1461;
          n1 = n div 365; n = n mod 365;
          y = n400 * 400 + 1 + n100 * 100 + n4 * 4 + n1
      in if n1 = 4 \<or> n100 = 4 then (y - 1, 12, 31)
         else
           let leapyear = (n1 = 3 \<and> (n4 \<noteq> 24 \<or> n100 = 3));
               m = (n + 50) div 32;
               preceding = days_before_month_table ! nat m + (if m > 2 \<and> leapyear then 1 else 0)
           in if preceding > n
              then (y, m - 1, n - (preceding - days_in_month y (m - 1)) + 1)
              else (y, m, n - preceding + 1))"

definition iso_to_ymd :: "int \<Rightarrow> int \<Rightarrow> int \<Rightarrow> (int \<times> int \<times> int) option" where
  "iso_to_ymd iso_year iso_week iso_day =
     (if iso_year < 1 \<or> iso_year > 9999 then None
      else if (iso_week \<le> 0 \<or> iso_week \<ge> 53) \<and>
              \<not> (iso_week = 53 \<and>
                 (weekday iso_year 1 1 = 3 \<or> (weekday iso_year 1 1 = 2 \<and> is_leap iso_year)))
      then None
      else if iso_day \<le> 0 \<or> iso_day \<ge> 8 then None
      else Some (ord_to_ymd (iso_week1_monday iso_year + ((iso_week - 1) * 7 + iso_day - 1))))"

definition parse_isoformat_date :: "string \<Rightarrow> (int \<times> int \<times> int) option" where
  "parse_isoformat_date dtstr =
     (case parse_digits dtstr 4 0 of
        None \<Rightarrow> None
      | Some (y, p) \<Rightarrow>
          let uses_separator = (peek p = CHR ''-'');
              p = (if uses_separator then tl p else p)
          in if peek p = CHR ''W'' then
               (case parse_digits (tl p) 2 0 of
                  None \<Rightarrow> None
                | Some (iso_week, p) \<Rightarrow>
                    if p \<noteq> [] then
                      if uses_separator \<and> peek p \<noteq> CHR ''-'' then None
                      else (case parse_digits (if uses_separator then tl p else p) 1 0 of
                              None \<Rightarrow> None
                            | Some (iso_day, _) \<Rightarrow> iso_to_ymd y iso_week iso_day)
                    else iso_to_ymd y iso_week 1)
             else
               (case parse_digits p 2 0 of
                  None \<Rightarrow> None
                | Some (m, p) \<Rightarrow>
                    if uses_separator \<and> peek p \<noteq> CHR ''-'' then None
                    else (case parse_digits (if uses_separator then tl p else p) 2 0 of
                            None \<Rightarrow> None
                          | Some (d, _) \<Rightarrow> Some (y, m, d))))"

definition new_date :: "int \<Rightarrow> int \<Rightarrow> int \<Rightarrow> date option" where
  \<comment> \<open>\<open>check_date_args\<close>: a ValueError is \<open>None\<close>\<close>
  "new_date y m d =
     (if y < 1 \<or> y > 9999 then None
      else if m < 1 \<or> m > 12 then None
      else if d < 1 \<or> d > days_in_month y m then None
      else Some \<lparr>year = y, month = m, day = d\<rparr>)"

definition fromisoformat :: "string \<Rightarrow> date option" where
  \<comment> \<open>\<open>None\<close> is the ValueError\<close>
  "fromisoformat date_string =
     (let dt = utf8 date_string; len = length dt
      in if len = 7 \<or> len = 8 \<or> len = 10
         then (case parse_isoformat_date dt of
                 None \<Rightarrow> None
               | Some (y, m, d) \<Rightarrow> new_date y m d)
         else None)"

section \<open>The Entity Store: \<open>models.Book\<close> behind Django's ORM\<close>

text \<open>
  A row of \<open>Book\<close>: the fields of \<open>models.py\<close> and the primary key that Django adds.
  The database is the list of rows, the key that the next insert gets, and the
  statements sent so far, so that a theorem can say that an operation did not reach the
  store. The \<open>unique\<close> constraint of \<open>isbn_number\<close> is not built into the store:
  that no two rows share an ISBN is proved of the creation operation, from its own
  check. A lookup \<open>icontains\<close> is the \<open>LIKE\<close> of the database with the needle
  escaped, which ignores the case of the ASCII letters; \<open>exact\<close> is equality. A
  queryset is lazy: it reaches the store when it is iterated or asked \<open>exists()\<close>,
  and the queryset of \<open>none()\<close> never does.
\<close>

record Book =
  pk :: nat
  title :: string
  author :: string
  published_date :: date
  isbn_number :: string
  pages :: int
  cover_image :: "string option"
  language :: string

datatype lookup =
    Title_icontains string
  | Author_icontains string
  | Isbn_number_icontains string
  | Language_icontains string
  | Isbn_number_exact string

datatype Q = Lookup lookup | Or Q Q

datatype queryset = Objects_none | Objects_filter Q | Distinct queryset

datatype statement = Select queryset | Exists queryset | Insert Book

record db =
  rows :: "Book list"
  next_pk :: nat
  statements :: "statement list"

definition ascii_lower :: "char \<Rightarrow> char" where
  "ascii_lower c = (if re_upper_az c then char_of (code_point c + 32) else c)"

definition icontains :: "string \<Rightarrow> string \<Rightarrow> bool" where
  \<comment> \<open>\<open>field LIKE '%needle%'\<close> with the needle escaped: a substring test that ignores the
      case of the ASCII letters\<close>
  "icontains field needle = sublist (map ascii_lower needle) (map ascii_lower field)"

fun eval_lookup :: "lookup \<Rightarrow> Book \<Rightarrow> bool" where
  "eval_lookup (Title_icontains s) b = icontains (title b) s"
| "eval_lookup (Author_icontains s) b = icontains (author b) s"
| "eval_lookup (Isbn_number_icontains s) b = icontains (isbn_number b) s"
| "eval_lookup (Language_icontains s) b = icontains (language b) s"
| "eval_lookup (Isbn_number_exact s) b = (isbn_number b = s)"

fun eval_Q :: "Q \<Rightarrow> Book \<Rightarrow> bool" where
  "eval_Q (Lookup l) b = eval_lookup l b"
| "eval_Q (Or q1 q2) b = (eval_Q q1 b \<or> eval_Q q2 b)"

fun select_rows :: "queryset \<Rightarrow> Book list \<Rightarrow> Book list" where
  "select_rows Objects_none bs = []"
| "select_rows (Objects_filter q) bs = filter (eval_Q q) bs"
| "select_rows (Distinct qs) bs = remdups (select_rows qs bs)"

fun is_empty_queryset :: "queryset \<Rightarrow> bool" where
  \<comment> \<open>the result of \<open>none()\<close> stays empty under further calls and never queries\<close>
  "is_empty_queryset Objects_none = True"
| "is_empty_queryset (Objects_filter q) = False"
| "is_empty_queryset (Distinct qs) = is_empty_queryset qs"


definition exists :: "queryset \<Rightarrow> db \<Rightarrow> bool \<times> db" where
  "exists qs d =
     (if is_empty_queryset qs then (False, d)
      else (select_rows qs (rows d) \<noteq> [], d\<lparr>statements := statements d @ [Exists qs]\<rparr>))"

definition objects_create ::
  "string \<Rightarrow> string \<Rightarrow> date \<Rightarrow> string \<Rightarrow> int \<Rightarrow> string option \<Rightarrow> string \<Rightarrow> db \<Rightarrow> Book \<times> db" where
  "objects_create t a pd isbn n ci lang d =
     (let b = \<lparr>pk = next_pk d, title = t, author = a, published_date = pd, isbn_number = isbn,
                pages = n, cover_image = ci, language = lang\<rparr>
      in (b, \<lparr>rows = rows d @ [b], next_pk = Suc (next_pk d),
               statements = statements d @ [Insert b]\<rparr>))"

section \<open>\<open>schema.py\<close>: the search resolver and the creation mutation\<close>


record CreateBook =
  book :: "Book option"
  ok :: bool
  errors :: "string list"

record arguments =
  arg_title :: string
  arg_author :: string
  arg_published_date :: string
  arg_isbn_number :: string
  arg_pages :: int
  arg_cover_image :: "string option"
  arg_language :: string

abbreviation isbn_error :: string where
  "isbn_error \<equiv> ''ISBN must be 10 or 13 digits.''"

abbreviation date_error :: string where
  "date_error \<equiv> ''published_date must be in YYYY-MM-DD format.''"

abbreviation duplicate_error :: string where
  "duplicate_error \<equiv> ''Book with this ISBN already exists.''"

text \<open>
  \<open>CreateBook.mutate\<close>. The \<open>try\<close> either binds \<open>pub_date\<close> or appends the date
  message, so the two outcomes of \<open>fromisoformat\<close> are the two branches of the
  \<open>case\<close>; in the first, \<open>errors\<close> is not empty and the function returns at
  \<open>if errors\<close>.
\<close>

definition mutate :: "db \<Rightarrow> arguments \<Rightarrow> CreateBook \<times> db" where
  "mutate d a =
     (let errors = (if \<not> re_match isbn_pattern (arg_isbn_number a) then [isbn_error] else [])
      in case fromisoformat (arg_published_date a) of
           None \<Rightarrow> (\<lparr>book = None, ok = False, errors = errors @ [date_error]\<rparr>, d)
         | Some pub_date \<Rightarrow>
             if errors \<noteq> [] then (\<lparr>book = None, ok = False, errors = errors\<rparr>, d)
             else
               let (found, d1) =
                     exists (Objects_filter (Lookup (Isbn_number_exact (arg_isbn_number a)))) d
               in if found
                  then (\<lparr>book = None, ok = False, errors = [duplicate_error]\<rparr>, d1)
                  else
                    let (b, d2) =
                          objects_create (arg_title a) (arg_author a) pub_date (arg_isbn_number a)
                            (arg_pages a) (arg_cover_image a) (arg_language a) d1
                    in (\<lparr>book = Some b, ok = True, errors = []\<rparr>, d2))"

section \<open>\<open>add_books.py\<close>: the importer\<close>

text \<open>
  What \<open>post_book\<close> returns is a decoded JSON value (or one of its own two
  dictionaries). Numbers are integers here; a JSON number with a fraction is left out.
\<close>

datatype json =
    JNull
  | JBool bool
  | JInt int
  | JStr string
  | JList "json list"
  | JDict "(string \<times> json) list"

datatype exn = AttributeError | ValueError | OSError | TypeError

record variables =
  var_title :: "string option"
  var_author :: "string option"
  var_publishedDate :: "string option"
  var_isbnNumber :: "string option"
  var_pages :: "int option"
  var_coverImage :: "string option"
  var_language :: "string option"

record namespace =
  url :: string
  ns_title :: "string option"
  ns_author :: "string option"
  ns_published_date :: "string option"
  ns_isbn :: "string option"
  ns_pages :: "int option"
  ns_cover_image :: "string option"
  ns_language :: "string option"
  csv :: "string option"

text \<open>
  The world outside the process is a parameter of the model: \<open>post_book\<close> as the
  answer to a request given the requests sent before it, the file system as a partial
  map from a path to the rows that \<open>csv.DictReader\<close> yields (\<open>None\<close>: the file
  cannot be opened), and the builtin \<open>int\<close> on a string (\<open>None\<close>: ValueError).
\<close>

type_synonym endpoint = "variables list \<Rightarrow> variables \<Rightarrow> json"
type_synonym row = "(string \<times> string) list"

fun truthy :: "json \<Rightarrow> bool" where
  "truthy JNull = False"
| "truthy (JBool b) = b"
| "truthy (JInt n) = (n \<noteq> 0)"
| "truthy (JStr s) = (s \<noteq> [])"
| "truthy (JList xs) = (xs \<noteq> [])"
| "truthy (JDict kvs) = (kvs \<noteq> [])"

definition dict_get :: "json \<Rightarrow> string \<Rightarrow> json \<Rightarrow> exn + json" where
  \<comment> \<open>\<open>x.get(key, default)\<close>: only a dict has the method\<close>
  "dict_get x key dflt =
     (case x of
        JDict kvs \<Rightarrow> (case map_of kvs key of None \<Rightarrow> Inr dflt | Some v \<Rightarrow> Inr v)
      | _ \<Rightarrow> Inl AttributeError)"

definition created_ok :: "json \<Rightarrow> exn + bool" where
  \<comment> \<open>the condition of lines 64 and 89:
      \<open>isinstance(resp, dict) and 'data' in resp and resp['data'] and
       resp['data'].get('createBook', {}).get('ok')\<close>\<close>
  "created_ok resp =
     (case resp of
        JDict kvs \<Rightarrow>
          (case map_of kvs ''data'' of
             None \<Rightarrow> Inr False
           | Some data \<Rightarrow>
               if \<not> truthy data then Inr False
               else (case dict_get data ''createBook'' (JDict []) of
                       Inl e \<Rightarrow> Inl e
                     | Inr cb \<Rightarrow>
                         (case dict_get cb ''ok'' JNull of
                            Inl e \<Rightarrow> Inl e
                          | Inr v \<Rightarrow> Inr (truthy v))))
      | _ \<Rightarrow> Inr False)"

definition add_single :: "endpoint \<Rightarrow> namespace \<Rightarrow> (exn + nat) \<times> variables list" where
  "add_single post_book args =
     (let vars = \<lparr>var_title = ns_title args, var_author = ns_author args,
                   var_publishedDate = ns_published_date args, var_isbnNumber = ns_isbn args,
                   var_pages = ns_pages args, var_coverImage = ns_cover_image args,
                   var_language = ns_language args\<rparr>;
          resp = post_book [] vars
      in case created_ok resp of
           Inl e \<Rightarrow> (Inl e, [vars])
         | Inr b \<Rightarrow> (Inr (if b then 0 else 1), [vars]))"

definition py_or :: "string option \<Rightarrow> string option \<Rightarrow> string option" where
  \<comment> \<open>\<open>a or b\<close> on values that are a string or \<open>None\<close>\<close>
  "py_or a b = (case a of None \<Rightarrow> b | Some s \<Rightarrow> if s \<noteq> [] then a else b)"

definition row_vars :: "(string \<Rightarrow> int option) \<Rightarrow> row \<Rightarrow> exn + variables" where
  "row_vars py_int r =
     (let get = map_of r
      in case (case py_or (get ''pages'') None of
                 None \<Rightarrow> Some 0
               | Some s \<Rightarrow> py_int s) of
           None \<Rightarrow> Inl ValueError
         | Some n \<Rightarrow>
             Inr \<lparr>var_title = py_or (get ''title'') (get ''Title''),
                  var_author = py_or (get ''author'') (get ''Author''),
                  var_publishedDate =
                    py_or (py_or (get ''published_date'') (get ''publishedDate''))
                      (get ''PublishedDate''),
                  var_isbnNumber = py_or (py_or (get ''isbn_number'') (get ''isbn'')) (get ''ISBN''),
                  var_pages = Some n,
                  var_coverImage = py_or (py_or (get ''cover_image'') (get ''coverImage'')) None,
                  var_language =
                    py_or (py_or (get ''language'') (get ''Language'')) (Some ''Unknown'')\<rparr>)"

text \<open>The loop of \<open>import_csv\<close>: an exception leaves it with the requests sent so far.\<close>

fun import_rows ::
  "(string \<Rightarrow> int option) \<Rightarrow> endpoint \<Rightarrow> row list \<Rightarrow> nat \<Rightarrow> nat \<Rightarrow> variables list
     \<Rightarrow> (exn + nat \<times> nat) \<times> variables list" where
  "import_rows py_int post_book [] failures total_rows sent = (Inr (failures, total_rows), sent)"
| "import_rows py_int post_book (r # rs) failures total_rows sent =
     (case row_vars py_int r of
        Inl e \<Rightarrow> (Inl e, sent)
      | Inr vars \<Rightarrow>
          (case created_ok (post_book sent vars) of
             Inl e \<Rightarrow> (Inl e, sent @ [vars])
           | Inr b \<Rightarrow>
               import_rows py_int post_book rs (if b then failures else failures + 1)
                 (total_rows + 1) (sent @ [vars])))"

definition import_csv ::
  "(string \<Rightarrow> int option) \<Rightarrow> (string \<rightharpoonup> row list) \<Rightarrow> endpoint \<Rightarrow> namespace
     \<Rightarrow> (exn + nat) \<times> variables list" where
  "import_csv py_int files post_book args =
     (case csv args of
        None \<Rightarrow> (Inl TypeError, [])
      | Some path \<Rightarrow>
          (case files path of
             None \<Rightarrow> (Inl OSError, [])
           | Some rs \<Rightarrow>
               (case import_rows py_int post_book rs 0 0 [] of
                  (Inl e, sent) \<Rightarrow> (Inl e, sent)
                | (Inr (failures, total_rows), sent) \<Rightarrow>
                    (Inr (if failures = 0 then 0 else 2), sent))))"

definition exit_status :: "(exn + nat) \<times> variables list \<Rightarrow> nat \<times> variables list" where
  \<comment> \<open>\<open>sys.exit(n)\<close> ends the process with \<open>n\<close>; an exception that nothing catches ends it
      with 1\<close>
  "exit_status r = (case r of (Inl e, sent) \<Rightarrow> (1, sent) | (Inr n, sent) \<Rightarrow> (n, sent))"

definition main ::
  "(string \<Rightarrow> int option) \<Rightarrow> (string \<rightharpoonup> row list) \<Rightarrow> endpoint \<Rightarrow> namespace
     \<Rightarrow> nat \<times> variables list" where
  \<comment> \<open>after \<open>parse_args\<close>: the exit status and the requests sent\<close>
  "main py_int files post_book args =
     (if csv args \<noteq> None \<and> csv args \<noteq> Some []
      then exit_status (import_csv py_int files post_book args)
      else
        let missing =
              map fst (filter snd
                [(''title'', ns_title args = None), (''author'', ns_author args = None),
                 (''published_date'', ns_published_date args = None),
                 (''isbn'', ns_isbn args = None), (''pages'', ns_pages args = None),
                 (''language'', ns_language args = None)])
        in if missing \<noteq> [] then (3, [])
           else exit_status (add_single post_book args))"

section \<open>The rules of the specification, and the inputs of its scenarios\<close>

text \<open>
  The ISBN rule in the specification's words: exactly 10 digits or exactly 13 digits.
\<close>

definition isbn_rule :: "string \<Rightarrow> bool" where
  "isbn_rule s = ((length s = 10 \<or> length s = 13) \<and> list_all re_digit s)"

text \<open>
  The date rule in the specification's words: a calendar date in strict YYYY-MM-DD form,
  that is four digits, a hyphen, two digits, a hyphen, two digits, which name a day that
  exists (in the years 1 to 9999 of \<open>datetime.date\<close>).
\<close>

definition decimal :: "string \<Rightarrow> int" where
  "decimal ds = foldl (\<lambda>n c. n * 10 + (int (code_point c) - 48)) 0 ds"

definition date_rule :: "string \<Rightarrow> bool" where
  "date_rule s =
     (length s = 10 \<and> s ! 4 = CHR ''-'' \<and> s ! 7 = CHR ''-''
      \<and> list_all re_digit (take 4 s @ take 2 (drop 5 s) @ drop 8 s)
      \<and> new_date (decimal (take 4 s)) (decimal (take 2 (drop 5 s))) (decimal (drop 8 s)) \<noteq> None)"

definition is_write :: "statement \<Rightarrow> bool" where
  "is_write st = (case st of Insert b \<Rightarrow> True | _ \<Rightarrow> False)"

definition orwell :: arguments where
  "orwell =
     \<lparr>arg_title = ''1984'', arg_author = ''Orwell'', arg_published_date = ''1949-06-08'',
      arg_isbn_number = ''9780451524935'', arg_pages = 328, arg_cover_image = None,
      arg_language = ''English''\<rparr>"

definition orwell_row :: Book where
  "orwell_row =
     \<lparr>pk = 1, title = ''1984'', author = ''Orwell'',
      published_date = \<lparr>year = 1949, month = 6, day = 8\<rparr>,
      isbn_number = ''9780451524935'', pages = 328, cover_image = None,
      language = ''English''\<rparr>"


definition orwell_db :: db where
  "orwell_db = \<lparr>rows = [orwell_row], next_pk = 2, statements = []\<rparr>"

text \<open>
  A run of the importer: a CSV file of two rows, and an endpoint whose resolver raised,
  so that the answer of the API layer carries \<open>"createBook": null\<close> beside the errors.
\<close>

definition null_data_reply :: json where
  "null_data_reply =
     JDict [(''errors'', JList [JDict [(''message'', JStr ''value too long'')]]),
            (''data'', JDict [(''createBook'', JNull)])]"

definition dune_csv_row :: row where
  "dune_csv_row =
     [(''title'', ''Dune''), (''author'', ''Herbert''), (''published_date'', ''1965-08-01''),
      (''isbn_number'', ''9780441013593''), (''pages'', ''412''), (''language'', ''English'')]"

definition csv_args :: namespace where
  "csv_args =
     \<lparr>url = ''http://127.0.0.1:8000/graphql/'', ns_title = None, ns_author = None,
      ns_published_date = None, ns_isbn = None, ns_pages = None, ns_cover_image = None,
      ns_language = None, csv = Some ''books.csv''\<rparr>"

section \<open>Properties\<close>

lemma sanitize_filter: "sanitize q = filter (\<lambda>c. \<not> not_alnum_space c) q"
  by (simp add: sanitize_def re_sub_class_def)

text \<open>
  C10: sanitizing an already sanitized query changes nothing:
  \<open>sanitize (sanitize q) = sanitize q\<close> for every string \<open>q\<close>.
\<close>

theorem sanitize_idempotent: "sanitize (sanitize q) = sanitize q"
  by (simp add: sanitize_filter)

subsection \<open>The ISBN pattern\<close>

lemma re_times_class:
  "re_times n (re_class P) (k, s) =
     (if n \<le> length s \<and> list_all P (take n s) then [(k + n, drop n s)] else [])"
proof (induction n arbitrary: k s)
  case 0
  then show ?case by simp
next
  case (Suc n)
  show ?case
  proof (cases s)
    case Nil
    then show ?thesis by (simp add: re_class_def)
  next
    case (Cons c cs)
    then show ?thesis using Suc.IH [of "Suc k" cs] by (simp add: re_class_def)
  qed
qed

lemma isbn_pattern_cursors:
  "re_match isbn_pattern s \<longleftrightarrow>
     10 \<le> length s \<and> list_all re_digit (take 10 s) \<and>
     ((3 \<le> length (drop 10 s) \<and> list_all re_digit (take 3 (drop 10 s)) \<and>
        (drop 13 s = [] \<or> drop 13 s = [CHR 0x0A]))
      \<or> drop 10 s = [] \<or> drop 10 s = [CHR 0x0A])"
  by (auto simp add: re_match_def isbn_pattern_def re_seq_def re_bol_def re_opt_def re_eol_def
      re_times_class split: if_splits)

lemma take_13_split: "take 13 s = take 10 s @ take 3 (drop 10 s)"
  using take_add [of 10 3 s] by simp

lemma drop_eq_single: "drop n s = [c] \<longleftrightarrow> length s = Suc n \<and> s = take n s @ [c]"
proof
  assume h: "drop n s = [c]"
  have "length (drop n s) = 1" using h by simp
  then have "length s = Suc n" by simp
  moreover have "s = take n s @ drop n s" by simp
  ultimately show "length s = Suc n \<and> s = take n s @ [c]" using h by simp
next
  assume h: "length s = Suc n \<and> s = take n s @ [c]"
  then obtain t where t: "s = t @ [c]" "length t = n"
    by (metis length_take min.absorb2 le_add2 plus_1_eq_Suc)
  then show "drop n s = [c]" by simp
qed

lemma list_all_take: "list_all P xs \<Longrightarrow> list_all P (take n xs)"
  by (auto simp add: list_all_iff dest: in_set_takeD)

lemma list_all_drop: "list_all P xs \<Longrightarrow> list_all P (drop n xs)"
  by (auto simp add: list_all_iff dest: in_set_dropD)

text \<open>
  What the pattern accepts: the strings of 10 or 13 digits, and each of them followed by
  one newline.
\<close>

lemma isbn_pattern_iff:
  "re_match isbn_pattern s \<longleftrightarrow>
     isbn_rule s \<or> (\<exists>ds. s = ds @ [CHR 0x0A] \<and> isbn_rule ds)"
proof
  assume "re_match isbn_pattern s"
  then have len: "10 \<le> length s" and d10: "list_all re_digit (take 10 s)"
    and rest: "(3 \<le> length (drop 10 s) \<and> list_all re_digit (take 3 (drop 10 s)) \<and>
        (drop 13 s = [] \<or> drop 13 s = [CHR 0x0A]))
      \<or> drop 10 s = [] \<or> drop 10 s = [CHR 0x0A]"
    by (simp_all add: isbn_pattern_cursors)
  from rest consider
      (ten) "drop 10 s = []"
    | (ten_nl) "drop 10 s = [CHR 0x0A]"
    | (thirteen) "3 \<le> length (drop 10 s)" "list_all re_digit (take 3 (drop 10 s))" "drop 13 s = []"
    | (thirteen_nl) "3 \<le> length (drop 10 s)" "list_all re_digit (take 3 (drop 10 s))"
        "drop 13 s = [CHR 0x0A]"
    by blast
  then show "isbn_rule s \<or> (\<exists>ds. s = ds @ [CHR 0x0A] \<and> isbn_rule ds)"
  proof cases
    case ten
    then have "length s = 10" "take 10 s = s" using len by simp_all
    then show ?thesis using d10 by (simp add: isbn_rule_def)
  next
    case ten_nl
    then have "length s = 11" "s = take 10 s @ [CHR 0x0A]" by (simp_all add: drop_eq_single)
    moreover have "isbn_rule (take 10 s)" using d10 len by (simp add: isbn_rule_def)
    ultimately show ?thesis by blast
  next
    case thirteen
    then have "length s = 13" "take 13 s = s" by simp_all
    moreover have "list_all re_digit (take 13 s)" using d10 thirteen(2) by (simp add: take_13_split)
    ultimately show ?thesis by (simp add: isbn_rule_def)
  next
    case thirteen_nl
    then have "length s = 14" "s = take 13 s @ [CHR 0x0A]" by (simp_all add: drop_eq_single)
    moreover have "list_all re_digit (take 13 s)" using d10 thirteen_nl(2) by (simp add: take_13_split)
    then have "isbn_rule (take 13 s)" using \<open>length s = 14\<close> by (simp add: isbn_rule_def)
    ultimately show ?thesis by blast
  qed
next
  assume "isbn_rule s \<or> (\<exists>ds. s = ds @ [CHR 0x0A] \<and> isbn_rule ds)"
  then obtain ds where ds: "isbn_rule ds" "s = ds \<or> s = ds @ [CHR 0x0A]" by blast
  from ds(1) have all: "list_all re_digit ds" and "length ds = 10 \<or> length ds = 13"
    by (simp_all add: isbn_rule_def)
  then consider (ten) "length ds = 10" | (thirteen) "length ds = 13" by blast
  then show "re_match isbn_pattern s"
  proof cases
    case ten
    then show ?thesis using ds(2) all by (auto simp add: isbn_pattern_cursors)
  next
    case thirteen
    then show ?thesis using ds(2) all
      by (auto simp add: isbn_pattern_cursors list_all_take list_all_drop)
  qed
qed


subsection \<open>The creation mutation\<close>

lemma exists_isbn_exact:
  "exists (Objects_filter (Lookup (Isbn_number_exact i))) d =
     (i \<in> set (map isbn_number (rows d)),
      d\<lparr>statements := statements d @ [Exists (Objects_filter (Lookup (Isbn_number_exact i)))]\<rparr>)"
  by (auto simp add: exists_def filter_empty_conv)

lemma mutate_invalid:
  assumes "\<not> re_match isbn_pattern (arg_isbn_number a) \<or> fromisoformat (arg_published_date a) = None"
  shows "mutate d a =
    (\<lparr>book = None, ok = False,
      errors = (if \<not> re_match isbn_pattern (arg_isbn_number a) then [isbn_error] else []) @
               (if fromisoformat (arg_published_date a) = None then [date_error] else [])\<rparr>, d)"
  using assms by (auto simp add: mutate_def split: option.splits)

lemma mutate_duplicate:
  assumes "re_match isbn_pattern (arg_isbn_number a)"
    and "fromisoformat (arg_published_date a) = Some pub_date"
    and "arg_isbn_number a \<in> set (map isbn_number (rows d))"
  shows "mutate d a =
    (\<lparr>book = None, ok = False, errors = [duplicate_error]\<rparr>,
     d\<lparr>statements := statements d @
        [Exists (Objects_filter (Lookup (Isbn_number_exact (arg_isbn_number a))))]\<rparr>)"
  using assms by (simp add: mutate_def exists_isbn_exact)

lemma mutate_created:
  assumes "re_match isbn_pattern (arg_isbn_number a)"
    and "fromisoformat (arg_published_date a) = Some pub_date"
    and "arg_isbn_number a \<notin> set (map isbn_number (rows d))"
  shows "mutate d a =
    (\<lparr>book = Some \<lparr>pk = next_pk d, title = arg_title a, author = arg_author a,
         published_date = pub_date, isbn_number = arg_isbn_number a, pages = arg_pages a,
         cover_image = arg_cover_image a, language = arg_language a\<rparr>,
       ok = True, errors = []\<rparr>,
     \<lparr>rows = rows d @ [\<lparr>pk = next_pk d, title = arg_title a, author = arg_author a,
         published_date = pub_date, isbn_number = arg_isbn_number a, pages = arg_pages a,
         cover_image = arg_cover_image a, language = arg_language a\<rparr>],
      next_pk = Suc (next_pk d),
      statements = statements d @
        [Exists (Objects_filter (Lookup (Isbn_number_exact (arg_isbn_number a)))),
         Insert \<lparr>pk = next_pk d, title = arg_title a, author = arg_author a,
           published_date = pub_date, isbn_number = arg_isbn_number a, pages = arg_pages a,
           cover_image = arg_cover_image a, language = arg_language a\<rparr>]\<rparr>)"
  using assms by (simp add: mutate_def exists_isbn_exact objects_create_def Let_def)

lemma newline_isbn_matches: "re_match isbn_pattern (''1234567890'' @ [CHR 0x0A])"
  by (simp add: isbn_pattern_cursors re_digit_def code_point_def)

lemma newline_isbn_breaks_rule: "\<not> isbn_rule (''1234567890'' @ [CHR 0x0A])"
  by (simp add: isbn_rule_def)

lemma basic_format_parses: "fromisoformat ''20210101'' = Some \<lparr>year = 2021, month = 1, day = 1\<rparr>"
  by code_simp

lemma basic_format_breaks_rule: "\<not> date_rule ''20210101''"
  by (simp add: date_rule_def)

lemma not_a_date: "fromisoformat ''not-a-date'' = None"
  by code_simp

lemma not_a_date_breaks_rule: "\<not> date_rule ''not-a-date''"
  by (simp add: date_rule_def)

text \<open>
  C1 (the ISBN check reports its error exactly for the strings that are not 10 or 13
  digits): the code breaks it. Ten digits followed by a newline are not 10 or 13 digits,
  and the creation reports no ISBN error for them, whatever the other arguments and the
  store are: \<open>$\<close> also matches just before a final newline.
\<close>

theorem isbn_with_newline_passes:
  "\<not> isbn_rule (''1234567890'' @ [CHR 0x0A]) \<and>
   isbn_error \<notin> set (errors (fst (mutate d (a\<lparr>arg_isbn_number := ''1234567890'' @ [CHR 0x0A]\<rparr>))))"
proof -
  have "isbn_error \<notin> set (errors (fst (mutate d (a\<lparr>arg_isbn_number := ''1234567890'' @ [CHR 0x0A]\<rparr>))))"
    using newline_isbn_matches
    by (simp add: mutate_def exists_isbn_exact objects_create_def Let_def split: option.splits)
  then show ?thesis using newline_isbn_breaks_rule by simp
qed

text \<open>
  C2 (the date check reports its error exactly for the strings that are not a calendar
  date in strict YYYY-MM-DD form): the code breaks it. \<open>20210101\<close> has no hyphens,
  and the creation reports no date error for it, whatever the other arguments and the
  store are: \<open>fromisoformat\<close> also reads the basic and the week formats of ISO 8601.
\<close>

theorem basic_format_date_passes:
  "\<not> date_rule ''20210101'' \<and>
   date_error \<notin> set (errors (fst (mutate d (a\<lparr>arg_published_date := ''20210101''\<rparr>))))"
proof -
  have "date_error \<notin> set (errors (fst (mutate d (a\<lparr>arg_published_date := ''20210101''\<rparr>))))"
    using basic_format_parses
    by (simp add: mutate_def exists_isbn_exact objects_create_def Let_def)
  then show ?thesis using basic_format_breaks_rule by simp
qed

text \<open>
  C7 (an input that breaks the ISBN rule and the date rule gets both messages, without a
  side effect): the code breaks it, by the defect of C1. For ten digits and a newline
  with a string that is no date, the errors are the date message alone; the store is
  not touched.
\<close>

theorem both_rules_broken_one_message:
  "\<not> isbn_rule (''1234567890'' @ [CHR 0x0A]) \<and> \<not> date_rule ''not-a-date'' \<and>
   mutate d (a\<lparr>arg_isbn_number := ''1234567890'' @ [CHR 0x0A], arg_published_date := ''not-a-date''\<rparr>)
     = (\<lparr>book = None, ok = False, errors = [date_error]\<rparr>, d)"
proof -
  have "mutate d (a\<lparr>arg_isbn_number := ''1234567890'' @ [CHR 0x0A], arg_published_date := ''not-a-date''\<rparr>)
     = (\<lparr>book = None, ok = False, errors = [date_error]\<rparr>, d)"
    using newline_isbn_matches not_a_date by (simp add: mutate_def)
  then show ?thesis using newline_isbn_breaks_rule not_a_date_breaks_rule by simp
qed

text \<open>
  What does hold: when the two checks of the code fail, both messages are returned, the
  ISBN message first, and the store is returned as it was.
\<close>

lemma both_checks_fail:
  assumes "\<not> re_match isbn_pattern (arg_isbn_number a)"
    and "fromisoformat (arg_published_date a) = None"
  shows "mutate d a = (\<lparr>book = None, ok = False, errors = [isbn_error, date_error]\<rparr>, d)"
  using assms by (simp add: mutate_invalid)

lemma orwell_isbn_matches: "re_match isbn_pattern ''9780451524935''"
  by (simp add: isbn_pattern_cursors re_digit_def code_point_def)

lemma orwell_date_parses: "fromisoformat ''1949-06-08'' = Some \<lparr>year = 1949, month = 6, day = 8\<rparr>"
  by code_simp

lemma short_isbn_fails: "\<not> re_match isbn_pattern ''12345''"
  by (simp add: isbn_pattern_cursors)

lemma slash_date_fails: "fromisoformat ''08/06/1949'' = None"
  by code_simp

text \<open>
  C3: the creation writes to the store only on success. If validation fails, the result
  is the failure with the validation messages and the store, with its log of statements,
  is returned as it was (no access). If validation passes and a row has the ISBN, the
  result is a failure and no write is logged. In every case the statements of the call
  contain at most one write, and exactly one precisely when the result is a success.
  On every failure the rows and the next key are unchanged.
\<close>

theorem create_writes_only_on_success:
  "(\<not> re_match isbn_pattern (arg_isbn_number a) \<or> fromisoformat (arg_published_date a) = None \<longrightarrow>
      mutate d a =
        (\<lparr>book = None, ok = False,
          errors = (if \<not> re_match isbn_pattern (arg_isbn_number a) then [isbn_error] else []) @
                   (if fromisoformat (arg_published_date a) = None then [date_error] else [])\<rparr>, d))
   \<and> (re_match isbn_pattern (arg_isbn_number a) \<and> fromisoformat (arg_published_date a) \<noteq> None
        \<and> arg_isbn_number a \<in> set (map isbn_number (rows d)) \<longrightarrow>
      \<not> ok (fst (mutate d a)) \<and> book (fst (mutate d a)) = None
      \<and> filter is_write (statements (snd (mutate d a))) = filter is_write (statements d))
   \<and> (\<exists>new. statements (snd (mutate d a)) = statements d @ new
        \<and> length (filter is_write new) \<le> 1
        \<and> (ok (fst (mutate d a)) \<longleftrightarrow> length (filter is_write new) = 1))
   \<and> (\<not> ok (fst (mutate d a)) \<longrightarrow>
        rows (snd (mutate d a)) = rows d \<and> next_pk (snd (mutate d a)) = next_pk d)"
proof -
  consider
      (invalid) "\<not> re_match isbn_pattern (arg_isbn_number a) \<or> fromisoformat (arg_published_date a) = None"
    | (duplicate) pub_date where "re_match isbn_pattern (arg_isbn_number a)"
        "fromisoformat (arg_published_date a) = Some pub_date"
        "arg_isbn_number a \<in> set (map isbn_number (rows d))"
    | (fresh) pub_date where "re_match isbn_pattern (arg_isbn_number a)"
        "fromisoformat (arg_published_date a) = Some pub_date"
        "arg_isbn_number a \<notin> set (map isbn_number (rows d))"
    by (cases "fromisoformat (arg_published_date a)") blast+
  then show ?thesis
  proof cases
    case invalid
    have m: "mutate d a =
        (\<lparr>book = None, ok = False,
          errors = (if \<not> re_match isbn_pattern (arg_isbn_number a) then [isbn_error] else []) @
                   (if fromisoformat (arg_published_date a) = None then [date_error] else [])\<rparr>, d)"
      by (rule mutate_invalid [OF invalid])
    have "statements (snd (mutate d a)) = statements d @ []" by (simp add: m)
    then show ?thesis using invalid by (auto simp add: m)
  next
    case duplicate
    note m = mutate_duplicate [OF duplicate]
    have "statements (snd (mutate d a)) = statements d @
        [Exists (Objects_filter (Lookup (Isbn_number_exact (arg_isbn_number a))))]"
      by (simp add: m)
    moreover have "filter is_write
        [Exists (Objects_filter (Lookup (Isbn_number_exact (arg_isbn_number a))))] = []"
      by (simp add: is_write_def)
    ultimately have "\<exists>new. statements (snd (mutate d a)) = statements d @ new
        \<and> length (filter is_write new) \<le> 1
        \<and> (ok (fst (mutate d a)) \<longleftrightarrow> length (filter is_write new) = 1)"
      by (simp add: m)
    then show ?thesis using duplicate by (simp add: m is_write_def)
  next
    case fresh
    note m = mutate_created [OF fresh]
    show ?thesis using fresh by (simp add: m is_write_def)
  qed
qed

theorem create_writes_only_on_success_witness:
  "\<not> re_match isbn_pattern (arg_isbn_number (orwell\<lparr>arg_isbn_number := ''12345''\<rparr>))
   \<and> mutate orwell_db (orwell\<lparr>arg_isbn_number := ''12345''\<rparr>)
       = (\<lparr>book = None, ok = False, errors = [isbn_error]\<rparr>, orwell_db)
   \<and> re_match isbn_pattern (arg_isbn_number orwell)
   \<and> fromisoformat (arg_published_date orwell) \<noteq> None
   \<and> arg_isbn_number orwell \<in> set (map isbn_number (rows orwell_db))
   \<and> \<not> ok (fst (mutate orwell_db orwell))
   \<and> book (fst (mutate orwell_db orwell)) = None
   \<and> filter is_write (statements (snd (mutate orwell_db orwell))) = []
   \<and> rows (snd (mutate orwell_db orwell)) = rows orwell_db
   \<and> next_pk (snd (mutate orwell_db orwell)) = next_pk orwell_db"
proof -
  have bad: "\<not> re_match isbn_pattern (arg_isbn_number (orwell\<lparr>arg_isbn_number := ''12345''\<rparr>))"
    using short_isbn_fails by simp
  have good: "re_match isbn_pattern (arg_isbn_number orwell)"
    "fromisoformat (arg_published_date orwell) \<noteq> None"
    "fromisoformat (arg_published_date (orwell\<lparr>arg_isbn_number := ''12345''\<rparr>)) \<noteq> None"
    "arg_isbn_number orwell \<in> set (map isbn_number (rows orwell_db))"
    using orwell_isbn_matches orwell_date_parses
    by (simp_all add: orwell_def orwell_db_def orwell_row_def)
  have stm: "filter is_write (statements orwell_db) = []" by (simp add: orwell_db_def)
  show ?thesis
    using create_writes_only_on_success [of "orwell\<lparr>arg_isbn_number := ''12345''\<rparr>" orwell_db]
      create_writes_only_on_success [of orwell orwell_db] bad good stm
    by simp
qed

text \<open>
  A key of a list without duplicate keys is the key of exactly one element.
\<close>

lemma count_of_distinct_member:
  "distinct (map f xs) \<Longrightarrow> k \<in> set (map f xs) \<Longrightarrow> length (filter (\<lambda>x. f x = k) xs) = 1"
proof (induction xs)
  case Nil
  then show ?case by simp
next
  case (Cons x xs)
  show ?case
  proof (cases "f x = k")
    case True
    then have "k \<notin> set (map f xs)" using Cons.prems(1) by auto
    then have "filter (\<lambda>x. f x = k) xs = []" by (auto simp add: filter_empty_conv)
    then show ?thesis using True by simp
  next
    case False
    then show ?thesis using Cons by auto
  qed
qed

text \<open>
  C4, as amended: ISBN uniqueness is an invariant of the creation. From a store in which
  no two rows share an ISBN, every call leaves such a store. A call whose ISBN and date
  pass the validation of the operation and whose ISBN belongs to a row returns the failure
  with the one message \<open>Book with this ISBN already exists.\<close>, and the number of rows
  with that ISBN is 1 before and after.
\<close>

theorem duplicate_isbn_rejected_after_validation:
  "distinct (map isbn_number (rows d)) \<Longrightarrow>
     distinct (map isbn_number (rows (snd (mutate d a)))) \<and>
     (re_match isbn_pattern (arg_isbn_number a) \<and> fromisoformat (arg_published_date a) \<noteq> None
        \<and> arg_isbn_number a \<in> set (map isbn_number (rows d)) \<longrightarrow>
      fst (mutate d a) = \<lparr>book = None, ok = False, errors = [duplicate_error]\<rparr>
      \<and> length (filter (\<lambda>b. isbn_number b = arg_isbn_number a) (rows d)) = 1
      \<and> length (filter (\<lambda>b. isbn_number b = arg_isbn_number a) (rows (snd (mutate d a)))) = 1)"
proof -
  assume inv: "distinct (map isbn_number (rows d))"
  consider
      (invalid) "\<not> re_match isbn_pattern (arg_isbn_number a) \<or> fromisoformat (arg_published_date a) = None"
    | (duplicate) pub_date where "re_match isbn_pattern (arg_isbn_number a)"
        "fromisoformat (arg_published_date a) = Some pub_date"
        "arg_isbn_number a \<in> set (map isbn_number (rows d))"
    | (fresh) pub_date where "re_match isbn_pattern (arg_isbn_number a)"
        "fromisoformat (arg_published_date a) = Some pub_date"
        "arg_isbn_number a \<notin> set (map isbn_number (rows d))"
    by (cases "fromisoformat (arg_published_date a)") blast+
  then show ?thesis
  proof cases
    case invalid
    then show ?thesis using inv by (auto simp add: mutate_invalid)
  next
    case duplicate
    have "length (filter (\<lambda>b. isbn_number b = arg_isbn_number a) (rows d)) = 1"
      by (rule count_of_distinct_member [OF inv duplicate(3)])
    then show ?thesis using inv by (simp add: mutate_duplicate [OF duplicate])
  next
    case fresh
    then show ?thesis using inv by (simp add: mutate_created [OF fresh])
  qed
qed

theorem duplicate_isbn_rejected_after_validation_witness:
  "distinct (map isbn_number (rows orwell_db))
   \<and> re_match isbn_pattern (arg_isbn_number (orwell\<lparr>arg_title := ''Animal Farm''\<rparr>))
   \<and> fromisoformat (arg_published_date (orwell\<lparr>arg_title := ''Animal Farm''\<rparr>)) \<noteq> None
   \<and> arg_isbn_number (orwell\<lparr>arg_title := ''Animal Farm''\<rparr>) \<in> set (map isbn_number (rows orwell_db))
   \<and> distinct (map isbn_number (rows (snd (mutate orwell_db (orwell\<lparr>arg_title := ''Animal Farm''\<rparr>)))))
   \<and> fst (mutate orwell_db (orwell\<lparr>arg_title := ''Animal Farm''\<rparr>))
       = \<lparr>book = None, ok = False, errors = [duplicate_error]\<rparr>
   \<and> length (filter (\<lambda>b. isbn_number b = ''9780451524935'')
        (rows (snd (mutate orwell_db (orwell\<lparr>arg_title := ''Animal Farm''\<rparr>))))) = 1"
proof -
  have inv: "distinct (map isbn_number (rows orwell_db))" by (simp add: orwell_db_def)
  have good: "re_match isbn_pattern (arg_isbn_number (orwell\<lparr>arg_title := ''Animal Farm''\<rparr>))"
    "fromisoformat (arg_published_date (orwell\<lparr>arg_title := ''Animal Farm''\<rparr>)) \<noteq> None"
    "arg_isbn_number (orwell\<lparr>arg_title := ''Animal Farm''\<rparr>) \<in> set (map isbn_number (rows orwell_db))"
    "arg_isbn_number (orwell\<lparr>arg_title := ''Animal Farm''\<rparr>) = ''9780451524935''"
    using orwell_isbn_matches orwell_date_parses
    by (simp_all add: orwell_def orwell_db_def orwell_row_def)
  show ?thesis
    using duplicate_isbn_rejected_after_validation [OF inv, of "orwell\<lparr>arg_title := ''Animal Farm''\<rparr>"]
      inv good
    by simp
qed

text \<open>
  C4 as stated (the duplicate failure regardless of the other fields) is false: with the
  ISBN of the stored row and a date that does not parse, the call returns the date
  message, since validation comes first and returns before the store is asked.
\<close>

theorem duplicate_isbn_any_fields_counterexample:
  "distinct (map isbn_number (rows orwell_db))
   \<and> arg_isbn_number (orwell\<lparr>arg_published_date := ''08/06/1949''\<rparr>) \<in> set (map isbn_number (rows orwell_db))
   \<and> fst (mutate orwell_db (orwell\<lparr>arg_published_date := ''08/06/1949''\<rparr>))
       = \<lparr>book = None, ok = False, errors = [date_error]\<rparr>
   \<and> fst (mutate orwell_db (orwell\<lparr>arg_published_date := ''08/06/1949''\<rparr>))
       \<noteq> \<lparr>book = None, ok = False, errors = [duplicate_error]\<rparr>"
proof -
  have "fromisoformat (arg_published_date (orwell\<lparr>arg_published_date := ''08/06/1949''\<rparr>)) = None"
    using slash_date_fails by simp
  moreover have "re_match isbn_pattern (arg_isbn_number (orwell\<lparr>arg_published_date := ''08/06/1949''\<rparr>))"
    using orwell_isbn_matches by (simp add: orwell_def)
  ultimately have "mutate orwell_db (orwell\<lparr>arg_published_date := ''08/06/1949''\<rparr>)
      = (\<lparr>book = None, ok = False, errors = [date_error]\<rparr>, orwell_db)"
    by (simp add: mutate_invalid)
  then show ?thesis by (simp add: orwell_def orwell_db_def orwell_row_def)
qed



subsection \<open>The search resolver\<close>



















subsection \<open>The importer\<close>

lemma null_data_raises: "created_ok null_data_reply = Inl AttributeError"
  by (simp add: created_ok_def null_data_reply_def dict_get_def)

text \<open>
  C8 (exit status 2 when one or more CSV rows failed): the code breaks it. When the
  creation of a row fails on the server with an exception, the reply carries
  \<open>"createBook": null\<close>; the success test then calls \<open>.get\<close> on \<open>None\<close>, the
  AttributeError is not caught, and the process ends with status 1 after at most one
  request, whatever \<open>int\<close> makes of the pages.
\<close>

theorem csv_row_failure_exits_with_1:
  "created_ok null_data_reply = Inl AttributeError
   \<and> fst (main py_int [''books.csv'' \<mapsto> [dune_csv_row, dune_csv_row]]
           (\<lambda>sent vars. null_data_reply) csv_args) = 1
   \<and> length (snd (main py_int [''books.csv'' \<mapsto> [dune_csv_row, dune_csv_row]]
           (\<lambda>sent vars. null_data_reply) csv_args)) < 2"
proof -
  have "fst (main py_int [''books.csv'' \<mapsto> [dune_csv_row, dune_csv_row]]
           (\<lambda>sent vars. null_data_reply) csv_args) = 1
   \<and> length (snd (main py_int [''books.csv'' \<mapsto> [dune_csv_row, dune_csv_row]]
           (\<lambda>sent vars. null_data_reply) csv_args)) < 2"
    by (cases "row_vars py_int dune_csv_row")
      (simp_all add: main_def import_csv_def exit_status_def csv_args_def null_data_raises)
  then show ?thesis using null_data_raises by simp
qed

text \<open>
  The other outcomes of C8 as the code has them: status 3 and no request when a
  required field of a single record is missing; for a single record status 0 when the
  reply says ok and 1 otherwise; for a CSV file whose rows are all read and answered,
  status 0 when every reply says ok and 2 when the replies say not ok.
\<close>

lemma missing_fields_exit_3:
  assumes "csv args = None \<or> csv args = Some []"
    and "ns_title args = None \<or> ns_author args = None \<or> ns_published_date args = None
         \<or> ns_isbn args = None \<or> ns_pages args = None \<or> ns_language args = None"
  shows "main py_int files post_book args = (3, [])"
proof -
  have c: "\<not> (csv args \<noteq> None \<and> csv args \<noteq> Some [])" using assms(1) by auto
  have "\<exists>x \<in> set [(''title'', ns_title args = None), (''author'', ns_author args = None),
                 (''published_date'', ns_published_date args = None),
                 (''isbn'', ns_isbn args = None), (''pages'', ns_pages args = None),
                 (''language'', ns_language args = None)]. snd x"
    using assms(2) by (simp only: list.set bex_simps snd_conv) blast
  then have m: "map fst (filter snd
                [(''title'', ns_title args = None), (''author'', ns_author args = None),
                 (''published_date'', ns_published_date args = None),
                 (''isbn'', ns_isbn args = None), (''pages'', ns_pages args = None),
                 (''language'', ns_language args = None)]) \<noteq> []"
    by (simp only: map_is_Nil_conv filter_empty_conv) blast
  show ?thesis
    unfolding main_def Let_def using c m by (simp only: if_False if_True not_False_eq_True)
qed

lemma single_record_exit:
  assumes "csv args = None \<or> csv args = Some []"
    and "ns_title args \<noteq> None" "ns_author args \<noteq> None" "ns_published_date args \<noteq> None"
      "ns_isbn args \<noteq> None" "ns_pages args \<noteq> None" "ns_language args \<noteq> None"
  shows "fst (main py_int files post_book args) =
     (if created_ok (post_book []
           \<lparr>var_title = ns_title args, var_author = ns_author args,
            var_publishedDate = ns_published_date args, var_isbnNumber = ns_isbn args,
            var_pages = ns_pages args, var_coverImage = ns_cover_image args,
            var_language = ns_language args\<rparr>) = Inr True
      then 0 else 1)"
  using assms
  by (auto simp add: main_def Let_def add_single_def exit_status_def split: sum.splits)

lemma import_rows_all_ok:
  assumes "\<forall>r \<in> set rs. \<exists>v. row_vars py_int r = Inr v"
    and "\<forall>sent v. created_ok (post_book sent v) = Inr True"
  shows "\<exists>sent'. import_rows py_int post_book rs f t sent = (Inr (f, t + length rs), sent')"
  using assms(1)
proof (induction rs arbitrary: f t sent)
  case Nil
  then show ?case by simp
next
  case (Cons r rs)
  then obtain v where v: "row_vars py_int r = Inr v" by auto
  have "\<forall>r \<in> set rs. \<exists>v. row_vars py_int r = Inr v" using Cons.prems by simp
  then have "\<exists>sent'. import_rows py_int post_book rs f (t + 1) (sent @ [v])
      = (Inr (f, (t + 1) + length rs), sent')"
    by (rule Cons.IH)
  then show ?case using v assms(2) by simp
qed

lemma import_rows_some_failed:
  assumes "\<forall>r \<in> set rs. \<exists>v. row_vars py_int r = Inr v"
    and "\<forall>sent v. created_ok (post_book sent v) = Inr False"
    and "rs \<noteq> []"
  shows "\<exists>sent'. import_rows py_int post_book rs f t sent
      = (Inr (f + length rs, t + length rs), sent')"
  using assms(1)
proof (induction rs arbitrary: f t sent)
  case Nil
  then show ?case by simp
next
  case (Cons r rs)
  then obtain v where v: "row_vars py_int r = Inr v" by auto
  have "\<forall>r \<in> set rs. \<exists>v. row_vars py_int r = Inr v" using Cons.prems by simp
  then have "\<exists>sent'. import_rows py_int post_book rs (f + 1) (t + 1) (sent @ [v])
      = (Inr ((f + 1) + length rs, (t + 1) + length rs), sent')"
    by (rule Cons.IH)
  then show ?case using v assms(2) by simp
qed

lemma csv_all_ok_exit_0:
  assumes "csv args = Some path" "path \<noteq> []" "files path = Some rs"
    and "\<forall>r \<in> set rs. \<exists>v. row_vars py_int r = Inr v"
    and "\<forall>sent v. created_ok (post_book sent v) = Inr True"
  shows "fst (main py_int files post_book args) = 0"
proof -
  obtain sent' where "import_rows py_int post_book rs 0 0 [] = (Inr (0, 0 + length rs), sent')"
    using import_rows_all_ok [OF assms(4,5)] by blast
  then show ?thesis using assms(1-3) by (simp add: main_def import_csv_def exit_status_def)
qed

lemma csv_all_rejected_exit_2:
  assumes "csv args = Some path" "path \<noteq> []" "files path = Some rs" "rs \<noteq> []"
    and "\<forall>r \<in> set rs. \<exists>v. row_vars py_int r = Inr v"
    and "\<forall>sent v. created_ok (post_book sent v) = Inr False"
  shows "fst (main py_int files post_book args) = 2"
proof -
  obtain sent' where "import_rows py_int post_book rs 0 0 []
      = (Inr (0 + length rs, 0 + length rs), sent')"
    using import_rows_some_failed [OF assms(5,6,4)] by blast
  then show ?thesis using assms(1-4) by (simp add: main_def import_csv_def exit_status_def)
qed

subsection \<open>The date rule and the parser\<close>

text \<open>
  The half of C2 that the code keeps: every string that satisfies the date rule is
  parsed, to the date it names, so it gets no date error; and the three rejected examples
  of the specification are rejected.
\<close>

lemma length_10_elems:
  "length s = 10 \<Longrightarrow> \<exists>a b c d e f g h i j. s = [a, b, c, d, e, f, g, h, i, j]"
  by (simp add: eval_nat_numeral length_Suc_conv) blast

lemma digit_is_ascii: "re_digit c \<Longrightarrow> code_point c < 128"
  by (simp add: re_digit_def)

lemma digit_not_W: "re_digit c \<Longrightarrow> c \<noteq> CHR ''W''"
  by (auto simp add: re_digit_def code_point_def)

lemma date_rule_accepted:
  assumes "date_rule s"
  shows "fromisoformat s =
     new_date (decimal (take 4 s)) (decimal (take 2 (drop 5 s))) (decimal (drop 8 s))"
    and "fromisoformat s \<noteq> None"
proof -
  from assms have len: "length s = 10" by (simp add: date_rule_def)
  then obtain a b c d e f g h i j where s: "s = [a, b, c, d, e, f, g, h, i, j]"
    using length_10_elems [OF len] by (elim exE)
  from assms have e: "e = CHR ''-''" and h: "h = CHR ''-''"
    and dig: "re_digit a" "re_digit b" "re_digit c" "re_digit d" "re_digit f" "re_digit g"
      "re_digit i" "re_digit j"
    and ok: "new_date (decimal [a, b, c, d]) (decimal [f, g]) (decimal [i, j]) \<noteq> None"
    by (simp_all add: date_rule_def s)
  have u: "utf8 s = s"
    using dig by (simp add: utf8_def s e h digit_is_ascii) (simp add: code_point_def)
  have y: "parse_digits s 4 0 = Some (decimal [a, b, c, d], [e, f, g, h, i, j])"
    using dig by (simp add: s eval_nat_numeral decimal_def)
  have m: "parse_digits [f, g, CHR ''-'', i, j] 2 0 = Some (decimal [f, g], [CHR ''-'', i, j])"
    using dig by (simp add: eval_nat_numeral decimal_def)
  have dd: "parse_digits [i, j] 2 0 = Some (decimal [i, j], [])"
    using dig by (simp add: eval_nat_numeral decimal_def)
  have "parse_isoformat_date s = Some (decimal [a, b, c, d], decimal [f, g], decimal [i, j])"
    using digit_not_W [OF dig(5)]
    by (simp add: parse_isoformat_date_def y peek_def e h m dd Let_def)
  then show "fromisoformat s =
     new_date (decimal (take 4 s)) (decimal (take 2 (drop 5 s))) (decimal (drop 8 s))"
    by (simp add: fromisoformat_def u Let_def) (simp add: s)
  then show "fromisoformat s \<noteq> None" using ok by (simp add: s)
qed

lemma claimed_examples_rejected:
  "fromisoformat ''2021-13-40'' = None" "fromisoformat ''01/01/2021'' = None"
  "fromisoformat '''' = None"
  by code_simp+

end
